theory Spec2Isabelle
  imports Main "HOL-Library.Sublist"
begin

section \<open>Python values used by \<open>app.py\<close>\<close>

text \<open>
  A Python \<open>str\<close> is a sequence of Unicode code points, and \<open>len\<close> counts code points.
  The program works on Chinese text, so a character is modelled by its code point (a
  natural number) and a string by the list of its code points.
\<close>

type_synonym pychar = nat
type_synonym pystr = "pychar list"

definition py :: "string \<Rightarrow> pystr" where
  \<comment> \<open>an ASCII literal of the source as a Python string\<close>
  "py s = map of_char s"

definition py_isspace :: "pychar \<Rightarrow> bool" where
  \<comment> \<open>the characters \<open>str.isspace\<close>, \<open>str.strip()\<close> and the pattern \<open>\s\<close> treat as whitespace\<close>
  "py_isspace c \<longleftrightarrow>
     (0x09 \<le> c \<and> c \<le> 0x0D) \<or> (0x1C \<le> c \<and> c \<le> 0x20) \<or> c = 0x85 \<or> c = 0xA0 \<or>
     c = 0x1680 \<or> (0x2000 \<le> c \<and> c \<le> 0x200A) \<or> c = 0x2028 \<or> c = 0x2029 \<or>
     c = 0x202F \<or> c = 0x205F \<or> c = 0x3000"

definition strip :: "pystr \<Rightarrow> pystr" where
  \<comment> \<open>\<open>s.strip()\<close>: leading and trailing whitespace removed\<close>
  "strip s = rev (dropWhile py_isspace (rev (dropWhile py_isspace s)))"

fun join :: "pystr \<Rightarrow> pystr list \<Rightarrow> pystr" where
  \<comment> \<open>\<open>sep.join(parts)\<close>\<close>
  "join sep [] = []"
| "join sep [x] = x"
| "join sep (x # y # ys) = x @ sep @ join sep (y # ys)"

section \<open>Frequency tables: \<open>collections.Counter\<close>\<close>

text \<open>
  A \<open>Counter\<close> is a \<open>dict\<close>, and a \<open>dict\<close> iterates in insertion order: a key keeps
  the position of its first insertion when its value is updated. The ranking of the
  program depends on that order, so a table is an association list in insertion order.
\<close>

type_synonym 'a counter = "('a \<times> int) list"

fun counter_incr :: "'a \<Rightarrow> 'a counter \<Rightarrow> 'a counter" where
  \<comment> \<open>\<open>self[elem] = self.get(elem, 0) + 1\<close>\<close>
  "counter_incr w [] = [(w, 1)]"
| "counter_incr w ((k, c) # kcs) =
     (if k = w then (k, c + 1) # kcs else (k, c) # counter_incr w kcs)"

definition Counter :: "'a list \<Rightarrow> 'a counter" where
  \<comment> \<open>\<open>Counter(iterable)\<close>: the elements are counted from left to right\<close>
  "Counter ws = foldl (\<lambda>m w. counter_incr w m) [] ws"

definition filter_low_freq_words :: "'a counter \<Rightarrow> int \<Rightarrow> 'a counter" where
  \<comment> \<open>\<open>Counter({word: count for word, count in word_count.items() if count >= min_freq})\<close>;
      a \<open>Counter\<close> built from a \<open>dict\<close> keeps its items and their order\<close>
  "filter_low_freq_words word_count min_freq =
     filter (\<lambda>(word, count). count \<ge> min_freq) word_count"

definition most_common :: "nat \<Rightarrow> 'a counter \<Rightarrow> ('a \<times> int) list" where
  \<comment> \<open>\<open>self.most_common(n)\<close> is \<open>heapq.nlargest(n, self.items(), key=itemgetter(1))\<close>, that is
      \<open>sorted(self.items(), key=itemgetter(1), reverse=True)[:n]\<close>; Python's sort is
      stable, also with \<open>reverse=True\<close>\<close>
  "most_common n word_count = take n (sort_key (\<lambda>item. - snd item) word_count)"

definition first_occurrence :: "'a list \<Rightarrow> 'a \<Rightarrow> nat" where
  \<comment> \<open>position of the first occurrence of a token in a token stream\<close>
  "first_occurrence ts w = length (takeWhile (\<lambda>t. t \<noteq> w) ts)"

section \<open>The extractor: lines 41--64\<close>

text \<open>
  The network request and the HTML parser are libraries outside the program. What the
  program receives from them is either an exception (with its message) or the tree
  that the parser built; the extraction of lines 53--62 is a function of that tree.
  A tag carries its name, the value of its \<open>class\<close> attribute (absent, or the list of
  class names the parser splits it into) and its children. \<open>Comment\<close> stands for the
  strings that \<open>get_text\<close> leaves out (comments, declarations, doctypes).
\<close>

datatype node =
    Tag pystr "pystr list option" "node list"
  | NavigableString pystr
  | Comment pystr

datatype response = Raised pystr | Page "node list"

fun descendant_tags :: "node \<Rightarrow> node list" where
  \<comment> \<open>a tag and the tags below it, in document order\<close>
  "descendant_tags (Tag n c kids) = Tag n c kids # concat (map descendant_tags kids)"
| "descendant_tags (NavigableString s) = []"
| "descendant_tags (Comment s) = []"

definition find_all :: "(node \<Rightarrow> bool) \<Rightarrow> node list \<Rightarrow> node list" where
  \<comment> \<open>\<open>soup.find_all(...)\<close>: the matching tags below the root, in document order\<close>
  "find_all matches soup = filter matches (concat (map descendant_tags soup))"

fun get_text :: "node \<Rightarrow> pystr" where
  \<comment> \<open>\<open>tag.get_text()\<close>: the text strings below the tag, concatenated\<close>
  "get_text (Tag n c kids) = concat (map get_text kids)"
| "get_text (NavigableString s) = s"
| "get_text (Comment s) = []"

fun decompose :: "pystr list \<Rightarrow> node \<Rightarrow> node list" where
  \<comment> \<open>\<open>for tag in soup([...]): tag.decompose()\<close>: every tag with one of the names is
      removed from the tree together with everything below it\<close>
  "decompose names (Tag n c kids) =
     (if n \<in> set names then [] else [Tag n c (concat (map (decompose names) kids))])"
| "decompose names (NavigableString s) = [NavigableString s]"
| "decompose names (Comment s) = [Comment s]"

definition lower :: "pystr \<Rightarrow> pystr" where
  \<comment> \<open>\<open>x.lower()\<close> on the ASCII letters. The case mapping of the other characters is left
      out: none of them is mapped to a run of the ASCII letters that the two substring
      tests below look for.\<close>
  "lower x = map (\<lambda>c. if 0x41 \<le> c \<and> c \<le> 0x5A then c + 32 else c) x"

fun contains :: "pystr \<Rightarrow> pystr \<Rightarrow> bool" where
  \<comment> \<open>\<open>needle in haystack\<close>\<close>
  "contains needle [] = (needle = [])"
| "contains needle (c # cs) = (prefix needle (c # cs) \<or> contains needle cs)"

definition class_matches :: "pystr \<Rightarrow> bool" where
  \<comment> \<open>\<open>lambda x: x and ("content" in x.lower() or "article" in x.lower())\<close>\<close>
  "class_matches x \<longleftrightarrow>
     x \<noteq> [] \<and> (contains (py ''content'') (lower x) \<or> contains (py ''article'') (lower x))"

fun is_article :: "node \<Rightarrow> bool" where
  \<comment> \<open>\<open>find_all("article")\<close>\<close>
  "is_article (Tag n c kids) = (n = py ''article'')"
| "is_article (NavigableString s) = False"
| "is_article (Comment s) = False"

fun is_content_div :: "node \<Rightarrow> bool" where
  \<comment> \<open>\<open>find_all("div", class_=...)\<close>: the function is tried on every class name of the tag
      and on the whole attribute value; a tag without the attribute passes \<open>None\<close>\<close>
  "is_content_div (Tag n None kids) = False"
| "is_content_div (Tag n (Some classes) kids) =
     (n = py ''div'' \<and>
      (list_ex class_matches classes \<or> class_matches (join (py '' '') classes)))"
| "is_content_div (NavigableString s) = False"
| "is_content_div (Comment s) = False"

fun is_p :: "node \<Rightarrow> bool" where
  \<comment> \<open>\<open>find_all("p")\<close>\<close>
  "is_p (Tag n c kids) = (n = py ''p'')"
| "is_p (NavigableString s) = False"
| "is_p (Comment s) = False"

definition py_or :: "'a list \<Rightarrow> 'a list \<Rightarrow> 'a list" where
  \<comment> \<open>\<open>a or b\<close> on lists: \<open>a\<close> when it is not empty, else \<open>b\<close>\<close>
  "py_or a b = (if a \<noteq> [] then a else b)"

definition NO_CONTENT :: pystr where
  \<comment> \<open>the message of line 61\<close>
  "NO_CONTENT = [26410, 25552, 21462, 21040, 27491, 25991, 65288, 21487, 33021, 26159,
     21160, 24577, 39029, 38754, 47, 26631, 31614, 19981, 21305, 37197, 65289]"

definition CRAWL_FAILED :: pystr where
  \<comment> \<open>the prefix of the message of line 64\<close>
  "CRAWL_FAILED = [29228, 21462, 22833, 36133, 65306]"

definition tier_text :: "node list \<Rightarrow> pystr" where
  \<comment> \<open>line 58: the trimmed texts of the tags that are not empty, joined by line breaks\<close>
  "tier_text content_tags =
     join [0x0A] (map (\<lambda>tag. strip (get_text tag))
       (filter (\<lambda>tag. strip (get_text tag) \<noteq> []) content_tags))"

definition remove_irrelevant :: "node list \<Rightarrow> node list" where
  \<comment> \<open>lines 53--54\<close>
  "remove_irrelevant parsed =
     concat (map (decompose (map py
       [''script'', ''style'', ''nav'', ''footer'', ''aside'', ''header''])) parsed)"

definition extract_article :: "node list \<Rightarrow> pystr + pystr" where
  \<comment> \<open>lines 53--62. The result \<open>(article_text, "")\<close> is \<open>Inr article_text\<close> and the result
      \<open>(None, message)\<close> is \<open>Inl message\<close>.\<close>
  "extract_article parsed =
     (let soup = remove_irrelevant parsed;
          content_tags =
            py_or (find_all is_article soup)
              (py_or (find_all is_content_div soup) (find_all is_p soup));
          article_text = tier_text content_tags
      in if article_text = [] then Inl NO_CONTENT else Inr article_text)"

definition crawl_url_article :: "(pystr \<Rightarrow> response) \<Rightarrow> pystr \<Rightarrow> pystr + pystr" where
  \<comment> \<open>\<open>fetch url\<close> is what lines 47--50 obtain for the URL\<close>
  "crawl_url_article fetch url =
     (case fetch url of
        Raised e \<Rightarrow> Inl (CRAWL_FAILED @ e)
      | Page parsed \<Rightarrow> extract_article parsed)"

section \<open>The cleaner and the tokenizer: lines 66--79\<close>

function remove_tags :: "pystr \<Rightarrow> pystr" where
  \<comment> \<open>\<open>re.sub(r"<[^>]+>", "", text)\<close>: scanning from the left, a \<open><\<close> followed by at least
      one character other than \<open>>\<close> and then a \<open>>\<close> is deleted up to that \<open>>\<close>\<close>
  "remove_tags [] = []"
| "remove_tags (c # cs) =
     (if c = 0x3C \<and> takeWhile (\<lambda>d. d \<noteq> 0x3E) cs \<noteq> [] \<and> dropWhile (\<lambda>d. d \<noteq> 0x3E) cs \<noteq> []
      then remove_tags (tl (dropWhile (\<lambda>d. d \<noteq> 0x3E) cs))
      else c # remove_tags cs)"
  by pat_completeness auto
termination
proof (relation "measure length")
  fix c :: nat and cs :: "nat list"
  have "length (tl (dropWhile (\<lambda>d. d \<noteq> 0x3E) cs)) \<le> length cs"
    using length_dropWhile_le [of "\<lambda>d. d \<noteq> 0x3E" cs] by simp
  then show "(tl (dropWhile (\<lambda>d. d \<noteq> 0x3E) cs), c # cs) \<in> measure length"
    by simp
qed simp_all

definition remove_alnum_space :: "pystr \<Rightarrow> pystr" where
  \<comment> \<open>\<open>re.sub(r"[0-9a-zA-Z\s+]", "", text)\<close>; the \<open>+\<close> stands inside the class\<close>
  "remove_alnum_space text =
     filter (\<lambda>c. \<not> ((0x30 \<le> c \<and> c \<le> 0x39) \<or> (0x61 \<le> c \<and> c \<le> 0x7A) \<or>
                     (0x41 \<le> c \<and> c \<le> 0x5A) \<or> py_isspace c \<or> c = 0x2B)) text"

definition keep_chinese :: "pystr \<Rightarrow> pystr" where
  \<comment> \<open>line 71: every character outside U+4E00..U+9FA5 and the eleven punctuation marks
      of the pattern is deleted\<close>
  "keep_chinese text =
     filter (\<lambda>c. (0x4E00 \<le> c \<and> c \<le> 0x9FA5) \<or>
                  c \<in> set [0xFF0C, 0x3002, 0xFF01, 0xFF1F, 0xFF1B, 0xFF1A, 0x3001,
                            0xFF08, 0xFF09, 0x3010, 0x3011]) text"

definition clean :: "pystr \<Rightarrow> pystr" where
  \<comment> \<open>lines 69--71\<close>
  "clean text = keep_chinese (remove_alnum_space (remove_tags text))"

definition post_filter :: "pystr set \<Rightarrow> pystr list \<Rightarrow> pystr list" where
  \<comment> \<open>line 75\<close>
  "post_filter STOPWORDS seg_list =
     filter (\<lambda>word. word \<notin> STOPWORDS \<and> length word > 1 \<and> strip word \<noteq> []) seg_list"

definition clean_and_segment ::
  "(pystr \<Rightarrow> pystr list) \<Rightarrow> pystr set \<Rightarrow> pystr \<Rightarrow> pystr list \<times> pystr counter" where
  \<comment> \<open>\<open>lcut\<close> is the segmentation library, \<open>STOPWORDS\<close> the set loaded at start\<close>
  "clean_and_segment lcut STOPWORDS text =
     (let seg_list = post_filter STOPWORDS (lcut (clean text));
          word_count = Counter seg_list
      in (seg_list, word_count))"

section \<open>The page: lines 164--235\<close>

text \<open>
  One run of \<open>main\<close> reads the widgets (chart type, threshold, URL, button) and the
  session state, whose key \<open>word_count\<close> may be absent, and leaves a new session state
  and the messages it displayed. The chart itself is drawn by the presentation
  libraries; \<open>Chart\<close> records the data handed to them.
\<close>

datatype 'c message =
    Error pystr
  | Success nat
  | Info nat nat
  | Warning int
  | Table "(pystr \<times> int) list"
  | Chart 'c "(pystr \<times> int) list"

definition show_results :: "'c \<Rightarrow> int \<Rightarrow> pystr counter \<Rightarrow> 'c message list" where
  \<comment> \<open>lines 216--235\<close>
  "show_results chart_type min_freq word_count =
     (if word_count \<noteq> [] then
        (let filtered_word_count = filter_low_freq_words word_count min_freq in
         if filtered_word_count = [] then [Warning min_freq]
         else (let sorted_word_data = most_common 20 filtered_word_count
               in [Table sorted_word_data, Chart chart_type sorted_word_data]))
      else [])"

definition main ::
  "(pystr \<Rightarrow> response) \<Rightarrow> (pystr \<Rightarrow> pystr list) \<Rightarrow> pystr set \<Rightarrow>
   'c \<Rightarrow> int \<Rightarrow> pystr \<Rightarrow> bool \<Rightarrow> pystr counter option \<Rightarrow>
   pystr counter option \<times> 'c message list" where
  "main fetch lcut STOPWORDS chart_type min_freq url crawl_btn session_state =
     (let session_word_count = (case session_state of None \<Rightarrow> [] | Some wc \<Rightarrow> wc) in
      if crawl_btn \<and> url \<noteq> [] then
        (case crawl_url_article fetch url of
           Inl error \<Rightarrow> (Some session_word_count, [Error error])
         | Inr article_text \<Rightarrow>
             (let (seg_list, word_count) = clean_and_segment lcut STOPWORDS article_text
              in (Some word_count,
                  [Success (length article_text), Info (length seg_list) (length word_count)]
                  @ show_results chart_type min_freq word_count)))
      else (Some session_word_count, show_results chart_type min_freq session_word_count))"

section \<open>Objects and references\<close>

text \<open>
  Python passes a \<open>Counter\<close> by reference. To say what a call does to the objects that
  exist, the store is the list of the objects allocated so far and a reference is an
  index into it; a new object is appended.
\<close>

type_synonym ref = nat
type_synonym 'a store = "'a counter list"

definition new_object :: "'a store \<Rightarrow> 'a counter \<Rightarrow> 'a store \<times> ref" where
  "new_object h items = (h @ [items], length h)"

definition filter_low_freq_words_store :: "'a store \<Rightarrow> ref \<Rightarrow> int \<Rightarrow> 'a store \<times> ref" where
  \<comment> \<open>line 83 on the store: the comprehension reads the items of \<open>word_count\<close> and builds a
      new \<open>dict\<close>, from which \<open>Counter(...)\<close> builds a new \<open>Counter\<close>; nothing is assigned
      to \<open>word_count\<close>\<close>
  "filter_low_freq_words_store h word_count min_freq =
     (let (h1, d) = new_object h (filter (\<lambda>(word, count). count \<ge> min_freq) (h ! word_count))
      in new_object h1 (h1 ! d))"

section \<open>The aggregator\<close>

lemma Counter_snoc: "Counter (ws @ [w]) = counter_incr w (Counter ws)"
  by (simp add: Counter_def)

lemma keys_counter_incr:
  "map fst (counter_incr w m) = (if w \<in> fst ` set m then map fst m else map fst m @ [w])"
  by (induction m) force+

lemma sum_counter_incr: "sum_list (map snd (counter_incr w m)) = sum_list (map snd m) + 1"
  by (induction m) auto

lemma keys_Counter: "fst ` set (Counter ws) = set ws"
proof (induction ws rule: rev_induct)
  case Nil
  show ?case by (simp add: Counter_def)
next
  case (snoc w ws)
  have "set (map fst (Counter (ws @ [w]))) = insert w (set (map fst (Counter ws)))"
    unfolding Counter_snoc keys_counter_incr by auto
  with snoc show ?case by auto
qed

lemma distinct_Counter: "distinct (map fst (Counter ws))"
proof (induction ws rule: rev_induct)
  case Nil
  show ?case by (simp add: Counter_def)
next
  case (snoc w ws)
  then show ?case
    unfolding Counter_snoc keys_counter_incr by auto
qed

lemma sum_Counter: "sum_list (map snd (Counter ws)) = int (length ws)"
proof (induction ws rule: rev_induct)
  case Nil
  show ?case by (simp add: Counter_def)
next
  case (snoc w ws)
  then show ?case
    by (simp add: Counter_snoc sum_counter_incr)
qed

text \<open>
  C4. The frequency table built from a token stream has the distinct tokens of the stream
  as its keys, each once, and its counts add up to the length of the stream; the table
  that \<open>clean_and_segment\<close> returns is the one built from the token stream it returns.
\<close>

theorem frequency_table_sum_and_keys:
  "sum_list (map snd (Counter ts)) = int (length ts) \<and>
   set (map fst (Counter ts)) = set ts \<and> distinct (map fst (Counter ts)) \<and>
   snd (clean_and_segment lcut STOPWORDS text)
     = Counter (fst (clean_and_segment lcut STOPWORDS text))"
  using sum_Counter [of ts] keys_Counter [of ts] distinct_Counter [of ts]
  by (simp add: clean_and_segment_def Let_def)

section \<open>The filter and the ranking\<close>

lemma first_occurrence_snoc_old:
  "k \<in> set ts \<Longrightarrow> first_occurrence (ts @ [w]) k = first_occurrence ts k"
  unfolding first_occurrence_def by (induction ts) auto

lemma first_occurrence_snoc_new:
  "w \<notin> set ts \<Longrightarrow> first_occurrence (ts @ [w]) w = length ts"
  unfolding first_occurrence_def by (induction ts) auto

lemma first_occurrence_less: "k \<in> set ts \<Longrightarrow> first_occurrence ts k < length ts"
  unfolding first_occurrence_def by (induction ts) auto

lemma Counter_keys_in_first_occurrence_order:
  "sorted_wrt (\<lambda>a b. first_occurrence ts a < first_occurrence ts b) (map fst (Counter ts))"
proof (induction ts rule: rev_induct)
  case Nil
  show ?case by (simp add: Counter_def)
next
  case (snoc w ts)
  let ?ks = "map fst (Counter ts)"
  have ks: "set ?ks = set ts" using keys_Counter [of ts] by simp
  have old: "sorted_wrt (\<lambda>a b. first_occurrence (ts @ [w]) a < first_occurrence (ts @ [w]) b) ?ks"
  proof (rule sorted_wrt_mono_rel [OF _ snoc])
    fix a b
    assume "a \<in> set ?ks" "b \<in> set ?ks"
      "first_occurrence ts a < first_occurrence ts b"
    then show "first_occurrence (ts @ [w]) a < first_occurrence (ts @ [w]) b"
      using ks by (simp add: first_occurrence_snoc_old)
  qed
  show ?case
  proof (cases "w \<in> set ts")
    case True
    then show ?thesis using old ks by (simp add: Counter_snoc keys_counter_incr)
  next
    case False
    have "\<forall>k \<in> set ts. first_occurrence (ts @ [w]) k < first_occurrence (ts @ [w]) w"
      using False by (auto simp: first_occurrence_snoc_old first_occurrence_snoc_new first_occurrence_less)
    then show ?thesis using old ks False
      by (simp add: Counter_snoc keys_counter_incr sorted_wrt_append)
  qed
qed

lemma insort_key_stable_wrt:
  assumes "sorted_wrt (\<lambda>p q. f p < f q \<or> (f p = f q \<and> S p q)) ys"
    and "\<forall>y \<in> set ys. S x y"
  shows "sorted_wrt (\<lambda>p q. f p < f q \<or> (f p = f q \<and> S p q)) (insort_key f x ys)"
  using assms
  by (induction ys) (auto simp: set_insort_key)

lemma sort_key_stable_wrt:
  fixes f :: "'a \<Rightarrow> int"
  assumes "sorted_wrt S xs"
  shows "sorted_wrt (\<lambda>p q. f p < f q \<or> (f p = f q \<and> S p q)) (sort_key f xs)"
  using assms
proof (induction xs)
  case Nil
  show ?case by simp
next
  case (Cons x xs)
  then show ?case
    by (auto intro!: insort_key_stable_wrt)
qed

lemma most_common_stable:
  assumes "sorted_wrt S wc"
  shows "sorted_wrt (\<lambda>p q. snd q \<le> snd p \<and> (snd p = snd q \<longrightarrow> S p q)) (most_common n wc)"
proof -
  have "sorted_wrt (\<lambda>p q. - snd p < - snd q \<or> (- snd p = - snd q \<and> S p q))
          (sort_key (\<lambda>item. - snd item) wc)"
    using assms by (rule sort_key_stable_wrt)
  then have "sorted_wrt (\<lambda>p q. snd q \<le> snd p \<and> (snd p = snd q \<longrightarrow> S p q))
          (sort_key (\<lambda>item. - snd item) wc)"
    by (rule sorted_wrt_mono_rel [rotated]) auto
  then show ?thesis
    unfolding most_common_def by (rule sorted_wrt_take)
qed

lemma set_most_common: "set (most_common n wc) \<subseteq> set wc"
  unfolding most_common_def using set_take_subset [of n "sort_key (\<lambda>item. - snd item) wc"] by simp

lemma counter_incr_item:
  assumes "distinct (map fst m)"
  shows "(k, c) \<in> set (counter_incr w m) \<longleftrightarrow>
    (if k = w then (if w \<in> fst ` set m then (k, c - 1) \<in> set m else c = 1)
     else (k, c) \<in> set m)"
  using assms
proof (induction m)
  case Nil
  show ?case by auto
next
  case (Cons a m)
  obtain k' c' where a: "a = (k', c')" by (cases a)
  from Cons.prems a have notin: "k' \<notin> fst ` set m" and dist: "distinct (map fst m)"
    by auto
  show ?case
  proof (cases "k' = w")
    case True
    with notin have "\<And>d. (w, d) \<notin> set m" by (metis fst_conv image_eqI)
    with True a show ?thesis by auto
  next
    case False
    with a Cons.IH [OF dist] show ?thesis by auto
  qed
qed

lemma Counter_item:
  "(k, c) \<in> set (Counter ts) \<longleftrightarrow> k \<in> set ts \<and> c = int (count_list ts k)"
proof (induction ts arbitrary: k c rule: rev_induct)
  case Nil
  show ?case by (simp add: Counter_def)
next
  case (snoc w ts)
  have keys: "fst ` set (Counter ts) = set ts" by (rule keys_Counter)
  show ?case
    unfolding Counter_snoc counter_incr_item [OF distinct_Counter] keys
    using snoc [of k c] snoc [of k "c - 1"] by auto
qed

lemma set_Counter:
  "set (Counter ts) = (\<lambda>w. (w, int (count_list ts w))) ` set ts"
  using Counter_item [of _ _ ts] by auto

lemma distinct_items_Counter: "distinct (Counter ts)"
  using distinct_Counter [of ts] by (rule distinct_map [THEN iffD1, THEN conjunct1])

lemma set_filter_low_freq_Counter:
  "set (filter_low_freq_words (Counter ts) min_freq) =
     (\<lambda>w. (w, int (count_list ts w))) ` {w \<in> set ts. min_freq \<le> int (count_list ts w)}"
  unfolding filter_low_freq_words_def set_filter set_Counter by auto

lemma length_filter_low_freq_Counter:
  "length (filter_low_freq_words (Counter ts) min_freq) =
     card {w \<in> set ts. min_freq \<le> int (count_list ts w)}"
proof -
  have d: "distinct (filter_low_freq_words (Counter ts) min_freq)"
    unfolding filter_low_freq_words_def using distinct_items_Counter by (rule distinct_filter)
  have "length (filter_low_freq_words (Counter ts) min_freq)
      = card (set (filter_low_freq_words (Counter ts) min_freq))"
    using distinct_card [OF d] by simp
  also have "\<dots> = card {w \<in> set ts. min_freq \<le> int (count_list ts w)}"
    unfolding set_filter_low_freq_Counter by (rule card_image) (simp add: inj_on_def)
  finally show ?thesis .
qed

lemma most_common_left_out:
  assumes "sorted_wrt S wc"
  shows "\<forall>p \<in> set (most_common n wc). \<forall>q \<in> set wc - set (most_common n wc).
     snd q \<le> snd p \<and> (snd p = snd q \<longrightarrow> S p q)"
proof -
  let ?full = "sort_key (\<lambda>item. - snd item) wc"
  let ?R = "\<lambda>p q. snd q \<le> snd p \<and> (snd p = snd q \<longrightarrow> S p q)"
  have "sorted_wrt (\<lambda>p q. - snd p < - snd q \<or> (- snd p = - snd q \<and> S p q)) ?full"
    using assms by (rule sort_key_stable_wrt)
  then have "sorted_wrt ?R ?full"
    by (rule sorted_wrt_mono_rel [rotated]) auto
  then have "sorted_wrt ?R (take n ?full @ drop n ?full)" by simp
  then have cross: "\<forall>p \<in> set (take n ?full). \<forall>q \<in> set (drop n ?full). ?R p q"
    unfolding sorted_wrt_append by blast
  have "set wc = set (take n ?full) \<union> set (drop n ?full)"
    using set_append [of "take n ?full" "drop n ?full"] by simp
  with cross show ?thesis unfolding most_common_def by blast
qed

text \<open>
  C1. For a threshold between 1 and 20, the list the page displays (lines 219--225) is
  the ranking of the retained entries cut to 20. Its length is 20 or, if fewer tokens
  of the stream occur at least as often as the threshold, their number; no entry is
  repeated; every entry is a token of the stream with its number of occurrences, which
  is at least the threshold; of any two entries the earlier one has the larger count
  or, when the counts are equal, the token that occurs first earlier in the token
  stream; and every retained entry that is left out ranks, in that same order, after
  every entry of the list.
\<close>

theorem ranked_list_order:
  fixes ts :: "'a list" and min_freq :: int
  defines "ranked \<equiv> most_common 20 (filter_low_freq_words (Counter ts) min_freq)"
    and "retained \<equiv> (\<lambda>w. (w, int (count_list ts w))) `
          {w \<in> set ts. min_freq \<le> int (count_list ts w)}"
    and "before \<equiv> \<lambda>p q. snd q \<le> snd p \<and>
          (snd p = snd q \<longrightarrow> first_occurrence ts (fst p) < first_occurrence ts (fst q))"
  assumes "1 \<le> min_freq" and "min_freq \<le> 20"
  shows "length ranked = min 20 (card {w \<in> set ts. min_freq \<le> int (count_list ts w)}) \<and>
    distinct ranked \<and> set ranked \<subseteq> retained \<and> sorted_wrt before ranked \<and>
    (\<forall>p \<in> set ranked. \<forall>q \<in> retained - set ranked. before p q)"
proof -
  let ?S = "\<lambda>p q. first_occurrence ts (fst p) < first_occurrence ts (fst q)"
  let ?filtered = "filter_low_freq_words (Counter ts) min_freq"
  have "sorted_wrt ?S (Counter ts)"
    using Counter_keys_in_first_occurrence_order [of ts] by (simp add: sorted_wrt_map)
  then have S: "sorted_wrt ?S ?filtered"
    unfolding filter_low_freq_words_def by (rule sorted_wrt_filter)
  have order: "sorted_wrt before ranked"
    unfolding before_def ranked_def using S by (rule most_common_stable)
  have rest: "\<forall>p \<in> set ranked. \<forall>q \<in> retained - set ranked. before p q"
    unfolding before_def ranked_def retained_def
      set_filter_low_freq_Counter [of ts min_freq, symmetric]
    using S by (rule most_common_left_out)
  have len: "length ranked = min 20 (card {w \<in> set ts. min_freq \<le> int (count_list ts w)})"
    unfolding ranked_def most_common_def
    by (simp add: length_filter_low_freq_Counter min.commute)
  have "distinct ?filtered"
    unfolding filter_low_freq_words_def using distinct_items_Counter by (rule distinct_filter)
  then have dist: "distinct ranked"
    unfolding ranked_def most_common_def by simp
  have sub: "set ranked \<subseteq> retained"
    unfolding ranked_def retained_def set_filter_low_freq_Counter [of ts min_freq, symmetric]
    by (rule set_most_common)
  from len dist sub order rest show ?thesis by blast
qed


theorem ranked_list_order_witness:
  "most_common 20 (filter_low_freq_words (Counter
      [1, 2, 3, 4, 5, 6, 7, 8, 9, 10, 11, 12, 13, 14, 15, 16, 17, 18, 19, 20, 21, 21, 3 :: nat]) 1)
     = [(3, 2), (21, 2), (1, 1), (2, 1), (4, 1), (5, 1), (6, 1), (7, 1), (8, 1), (9, 1),
        (10, 1), (11, 1), (12, 1), (13, 1), (14, 1), (15, 1), (16, 1), (17, 1), (18, 1),
        (19, 1)] \<and>
   distinct (most_common 20 (filter_low_freq_words (Counter
      [1, 2, 3, 4, 5, 6, 7, 8, 9, 10, 11, 12, 13, 14, 15, 16, 17, 18, 19, 20, 21, 21, 3 :: nat]) 1)) \<and>
   sorted_wrt (\<lambda>p q. snd q \<le> snd p \<and>
      (snd p = snd q \<longrightarrow>
        first_occurrence
          [1, 2, 3, 4, 5, 6, 7, 8, 9, 10, 11, 12, 13, 14, 15, 16, 17, 18, 19, 20, 21, 21, 3 :: nat] (fst p)
        < first_occurrence
          [1, 2, 3, 4, 5, 6, 7, 8, 9, 10, 11, 12, 13, 14, 15, 16, 17, 18, 19, 20, 21, 21, 3 :: nat] (fst q)))
     (most_common 20 (filter_low_freq_words (Counter
      [1, 2, 3, 4, 5, 6, 7, 8, 9, 10, 11, 12, 13, 14, 15, 16, 17, 18, 19, 20, 21, 21, 3 :: nat]) 1))"
proof -
  have lo: "(1 :: int) \<le> 1" and hi: "(1 :: int) \<le> 20" by simp_all
  note ranking = ranked_list_order [OF lo hi, where ts =
      "[1, 2, 3, 4, 5, 6, 7, 8, 9, 10, 11, 12, 13, 14, 15, 16, 17, 18, 19, 20, 21, 21, 3 :: nat]"]
  have counted: "Counter [1, 2, 3, 4, 5, 6, 7, 8, 9, 10, 11, 12, 13, 14, 15, 16, 17, 18, 19, 20, 21, 21, 3 :: nat]
     = [(1, 1), (2, 1), (3, 2), (4, 1), (5, 1), (6, 1), (7, 1), (8, 1), (9, 1), (10, 1),
        (11, 1), (12, 1), (13, 1), (14, 1), (15, 1), (16, 1), (17, 1), (18, 1), (19, 1),
        (20, 1), (21, 2)]"
    by (simp add: Counter_def)
  have ranked: "most_common 20 (filter_low_freq_words (Counter
      [1, 2, 3, 4, 5, 6, 7, 8, 9, 10, 11, 12, 13, 14, 15, 16, 17, 18, 19, 20, 21, 21, 3 :: nat]) 1)
     = [(3, 2), (21, 2), (1, 1), (2, 1), (4, 1), (5, 1), (6, 1), (7, 1), (8, 1), (9, 1),
        (10, 1), (11, 1), (12, 1), (13, 1), (14, 1), (15, 1), (16, 1), (17, 1), (18, 1),
        (19, 1)]"
    unfolding counted by (simp add: most_common_def filter_low_freq_words_def)
  from ranking have d: "distinct (most_common 20 (filter_low_freq_words (Counter
      [1, 2, 3, 4, 5, 6, 7, 8, 9, 10, 11, 12, 13, 14, 15, 16, 17, 18, 19, 20, 21, 21, 3 :: nat]) 1))"
    by (rule conjunct2 [THEN conjunct1])
  from ranking have s: "sorted_wrt (\<lambda>p q. snd q \<le> snd p \<and>
      (snd p = snd q \<longrightarrow>
        first_occurrence
          [1, 2, 3, 4, 5, 6, 7, 8, 9, 10, 11, 12, 13, 14, 15, 16, 17, 18, 19, 20, 21, 21, 3 :: nat] (fst p)
        < first_occurrence
          [1, 2, 3, 4, 5, 6, 7, 8, 9, 10, 11, 12, 13, 14, 15, 16, 17, 18, 19, 20, 21, 21, 3 :: nat] (fst q)))
     (most_common 20 (filter_low_freq_words (Counter
      [1, 2, 3, 4, 5, 6, 7, 8, 9, 10, 11, 12, 13, 14, 15, 16, 17, 18, 19, 20, 21, 21, 3 :: nat]) 1))"
    by (rule conjunct2 [THEN conjunct2, THEN conjunct2, THEN conjunct1])
  from ranked d s show ?thesis by (intro conjI)
qed

text \<open>
  C6. An entry is kept at a threshold exactly when its count is at least the threshold,
  so what is kept at a larger threshold is kept at a smaller one.
\<close>

theorem filter_antitone:
  assumes "min_freq1 < min_freq2"
  shows "set (filter_low_freq_words word_count min_freq2)
           \<subseteq> set (filter_low_freq_words word_count min_freq1) \<and>
    (\<forall>word count. (word, count) \<in> set (filter_low_freq_words word_count min_freq1)
        \<longleftrightarrow> (word, count) \<in> set word_count \<and> min_freq1 \<le> count) \<and>
    (\<forall>word count. (word, count) \<in> set (filter_low_freq_words word_count min_freq2)
        \<longleftrightarrow> (word, count) \<in> set word_count \<and> min_freq2 \<le> count)"
  using assms by (auto simp: filter_low_freq_words_def)

theorem filter_antitone_witness:
  "set (filter_low_freq_words [(1 :: nat, 2), (2, 3), (3, 1)] 3)
           \<subseteq> set (filter_low_freq_words [(1, 2), (2, 3), (3, 1)] 2) \<and>
   filter_low_freq_words [(1 :: nat, 2), (2, 3), (3, 1)] 3 = [(2, 3)] \<and>
   filter_low_freq_words [(1 :: nat, 2), (2, 3), (3, 1)] 2 = [(1, 2), (2, 3)]"
  using filter_antitone [of 2 3 "[(1 :: nat, 2), (2, 3), (3, 1)]"]
  by (simp add: filter_low_freq_words_def)

text \<open>
  C7. When the table is not empty and the threshold exceeds every count, a run of the
  page displays the warning of line 221 and no error, and the table is in the session
  afterwards: both in a run that only filters and ranks the table of the session and
  in the run that crawled the page and built the table. A later run with a threshold
  that some count reaches, and without the button pressed, displays a ranking that is
  not empty; it does not depend on the network, the segmentation or the stopwords.
\<close>

theorem empty_after_filter_keeps_table:
  assumes "word_count \<noteq> []"
    and "\<forall>item \<in> set word_count. snd item < min_freq"
    and "\<exists>item \<in> set word_count. lower_freq \<le> snd item"
  shows "main fetch lcut STOPWORDS chart_type min_freq url False (Some word_count)
      = (Some word_count, [Warning min_freq]) \<and>
    (url \<noteq> [] \<and> crawl_url_article fetch url = Inr article_text \<and>
     clean_and_segment lcut STOPWORDS article_text = (seg_list, word_count) \<longrightarrow>
       main fetch lcut STOPWORDS chart_type min_freq url True session_state
         = (Some word_count,
            [Success (length article_text), Info (length seg_list) (length word_count),
             Warning min_freq])) \<and>
    most_common 20 (filter_low_freq_words word_count lower_freq) \<noteq> [] \<and>
    main fetch' lcut' STOPWORDS' chart_type lower_freq url' False (Some word_count)
      = (Some word_count,
         [Table (most_common 20 (filter_low_freq_words word_count lower_freq)),
          Chart chart_type (most_common 20 (filter_low_freq_words word_count lower_freq))])"
proof -
  have empty: "filter_low_freq_words word_count min_freq = []"
    using assms(2) by (auto simp: filter_low_freq_words_def filter_empty_conv)
  have nonempty: "filter_low_freq_words word_count lower_freq \<noteq> []"
    using assms(3) by (auto simp: filter_low_freq_words_def filter_empty_conv)
  have "length (most_common 20 (filter_low_freq_words word_count lower_freq))
      = min (length (filter_low_freq_words word_count lower_freq)) 20"
    by (simp add: most_common_def)
  with nonempty have ranked: "most_common 20 (filter_low_freq_words word_count lower_freq) \<noteq> []"
    by (cases "filter_low_freq_words word_count lower_freq") auto
  have warn: "show_results chart_type min_freq word_count = [Warning min_freq]"
    using assms(1) empty by (simp add: show_results_def)
  have rank: "show_results chart_type lower_freq word_count
      = [Table (most_common 20 (filter_low_freq_words word_count lower_freq)),
         Chart chart_type (most_common 20 (filter_low_freq_words word_count lower_freq))]"
    using assms(1) nonempty by (simp add: show_results_def Let_def)
  show ?thesis
    using warn rank ranked by (simp add: main_def Let_def)
qed

theorem empty_after_filter_keeps_table_witness:
  "main (\<lambda>u. Page [Tag (py ''article'') None [NavigableString [0x4E2D, 0x6587]]])
       (\<lambda>t. [t, [0x5206, 0x8BCD], t]) {} () 3 (py ''u'') True None
     = (Some [([0x4E2D, 0x6587], 2), ([0x5206, 0x8BCD], 1)], [Success 2, Info 3 2, Warning 3]) \<and>
   main (\<lambda>u. Raised []) (\<lambda>t. []) {} () 3 [] False
       (Some [([0x4E2D, 0x6587], 2), ([0x5206, 0x8BCD], 1)])
     = (Some [([0x4E2D, 0x6587], 2), ([0x5206, 0x8BCD], 1)], [Warning 3]) \<and>
   main (\<lambda>u. Raised []) (\<lambda>t. []) {} () 2 [] False
       (Some [([0x4E2D, 0x6587], 2), ([0x5206, 0x8BCD], 1)])
     = (Some [([0x4E2D, 0x6587], 2), ([0x5206, 0x8BCD], 1)],
        [Table [([0x4E2D, 0x6587], 2)], Chart () [([0x4E2D, 0x6587], 2)]])"
proof -
  have fetched: "crawl_url_article
       (\<lambda>u. Page [Tag (py ''article'') None [NavigableString [0x4E2D, 0x6587]]]) (py ''u'')
     = Inr [0x4E2D, 0x6587]"
    by (simp add: crawl_url_article_def extract_article_def remove_irrelevant_def find_all_def
        tier_text_def py_or_def strip_def py_isspace_def py_def)
  have cleaned: "clean [0x4E2D, 0x6587] = [0x4E2D, 0x6587]"
    by (simp add: clean_def keep_chinese_def remove_alnum_space_def py_isspace_def)
  have segmented: "clean_and_segment (\<lambda>t. [t, [0x5206, 0x8BCD], t]) {} [0x4E2D, 0x6587]
     = ([[0x4E2D, 0x6587], [0x5206, 0x8BCD], [0x4E2D, 0x6587]],
        [([0x4E2D, 0x6587], 2), ([0x5206, 0x8BCD], 1)])"
    by (simp add: clean_and_segment_def cleaned post_filter_def strip_def py_isspace_def
        Counter_def)
  have url: "py ''u'' \<noteq> []" by (simp add: py_def)
  show ?thesis
    using empty_after_filter_keeps_table
      [of "[([0x4E2D, 0x6587], 2), ([0x5206, 0x8BCD], 1)]" 3 2
        "\<lambda>u. Page [Tag (py ''article'') None [NavigableString [0x4E2D, 0x6587]]]"
        "\<lambda>t. [t, [0x5206, 0x8BCD], t]" "{}" "()" "py ''u''" "[0x4E2D, 0x6587]"
        "[[0x4E2D, 0x6587], [0x5206, 0x8BCD], [0x4E2D, 0x6587]]" None
        "\<lambda>u. Raised []" "\<lambda>t. []" "{}" "[]"]
      empty_after_filter_keeps_table
      [of "[([0x4E2D, 0x6587], 2), ([0x5206, 0x8BCD], 1)]" 3 2
        "\<lambda>u. Raised []" "\<lambda>t. []" "{}" "()" "[]" "[]" "[]" None
        "\<lambda>u. Raised []" "\<lambda>t. []" "{}" "[]"]
      fetched segmented url
    by (simp add: most_common_def filter_low_freq_words_def)
qed

text \<open>
  C10. On the store, \<open>filter_low_freq_words\<close> leaves every existing object as it was,
  the table it was given among them; its result is an object that did not exist
  before, and every item of the result is an item of the given table, with its count.
\<close>

theorem filter_store_frame:
  assumes "word_count < length h"
  shows "(case filter_low_freq_words_store h word_count min_freq of
      (h', result) \<Rightarrow>
        take (length h) h' = h \<and> h' ! word_count = h ! word_count \<and>
        length h \<le> result \<and> result < length h' \<and>
        h' ! result = filter_low_freq_words (h ! word_count) min_freq \<and>
        set (h' ! result) \<subseteq> set (h ! word_count))"
  using assms
  by (auto simp: filter_low_freq_words_store_def new_object_def filter_low_freq_words_def
      nth_append Let_def)

theorem filter_store_frame_witness:
  "filter_low_freq_words_store [[(1 :: nat, 2), (2, 3), (3, 1)]] 0 2
     = ([[(1, 2), (2, 3), (3, 1)], [(1, 2), (2, 3)], [(1, 2), (2, 3)]], 2)"
  using filter_store_frame [of 0 "[[(1 :: nat, 2), (2, 3), (3, 1)]]" 2]
  by (simp add: filter_low_freq_words_store_def new_object_def)

section \<open>The cleaner\<close>

lemma remove_tags_no_lt: "0x3C \<notin> set s \<Longrightarrow> remove_tags s = s"
  by (induction s) auto

lemma tl_dropWhile_subset: "set (tl (dropWhile P cs)) \<subseteq> set cs"
proof (cases "dropWhile P cs")
  case Nil
  show ?thesis unfolding Nil by simp
next
  case (Cons y ys)
  have "set ys \<subseteq> set (dropWhile P cs)" using Cons by auto
  also have "\<dots> \<subseteq> set cs" by (auto dest: set_dropWhileD)
  finally show ?thesis using Cons by simp
qed

lemma set_remove_tags: "set (remove_tags s) \<subseteq> set s"
proof (induction s rule: remove_tags.induct)
  case 1
  show ?case by simp
next
  case (2 c cs)
  show ?case
  proof (cases "c = 0x3C \<and> takeWhile (\<lambda>d. d \<noteq> 0x3E) cs \<noteq> [] \<and> dropWhile (\<lambda>d. d \<noteq> 0x3E) cs \<noteq> []")
    case True
    then have "set (remove_tags (c # cs)) \<subseteq> set (tl (dropWhile (\<lambda>d. d \<noteq> 0x3E) cs))"
      using 2(1) by simp
    also have "\<dots> \<subseteq> set (c # cs)" using tl_dropWhile_subset [of "\<lambda>d. d \<noteq> 0x3E" cs] by auto
    finally show ?thesis .
  next
    case False
    then have "remove_tags (c # cs) = c # remove_tags cs" by auto
    with 2(2) False show ?thesis by auto
  qed
qed


lemma set_clean:
  "set (clean x) \<subseteq> {0x4E00..0x9FA5} \<union>
     {0xFF0C, 0x3002, 0xFF01, 0xFF1F, 0xFF1B, 0xFF1A, 0x3001, 0xFF08, 0xFF09, 0x3010, 0x3011}"
  by (auto simp: clean_def keep_chinese_def)

lemma clean_example: "clean (py ''<p>Hi a+b'' @ [0x4E2D, 0x6587, 0xFF0C, 0x3000, 0x3C, 0x3E, 0x4E2D] @ py ''</p>'') = [0x4E2D, 0x6587, 0xFF0C, 0x4E2D]"
  by (simp add: clean_def py_def keep_chinese_def remove_alnum_space_def py_isspace_def)




lemma remove_alnum_space_fixed:
  assumes "set s \<subseteq> {0x4E00..0x9FA5} \<union>
     {0xFF0C, 0x3002, 0xFF01, 0xFF1F, 0xFF1B, 0xFF1A, 0x3001, 0xFF08, 0xFF09, 0x3010, 0x3011}"
  shows "remove_alnum_space s = s"
  unfolding remove_alnum_space_def filter_id_conv py_isspace_def
  using assms by auto

lemma keep_chinese_fixed:
  assumes "set s \<subseteq> {0x4E00..0x9FA5} \<union>
     {0xFF0C, 0x3002, 0xFF01, 0xFF1F, 0xFF1B, 0xFF1A, 0x3001, 0xFF08, 0xFF09, 0x3010, 0x3011}"
  shows "keep_chinese s = s"
  unfolding keep_chinese_def filter_id_conv using assms by auto

lemma clean_fixed:
  assumes "set s \<subseteq> {0x4E00..0x9FA5} \<union>
     {0xFF0C, 0x3002, 0xFF01, 0xFF1F, 0xFF1B, 0xFF1A, 0x3001, 0xFF08, 0xFF09, 0x3010, 0x3011}"
  shows "clean s = s"
proof -
  have lt: "0x3C \<notin> set s" using assms by auto
  show ?thesis
    by (simp add: clean_def remove_tags_no_lt [OF lt] remove_alnum_space_fixed [OF assms]
        keep_chinese_fixed [OF assms])
qed

text \<open>
  C3. The cleaner is idempotent: cleaning its own output changes nothing.
\<close>

theorem cleaner_idempotent: "clean (clean x) = clean x"
  using set_clean [of x] by (rule clean_fixed)


section \<open>The tokenizer\<close>





section \<open>The extractor\<close>

lemma extract_article_chosen:
  "extract_article parsed =
     (let soup = remove_irrelevant parsed;
          chosen = (if find_all is_article soup \<noteq> [] then find_all is_article soup
                    else if find_all is_content_div soup \<noteq> [] then find_all is_content_div soup
                    else find_all is_p soup)
      in if tier_text chosen = [] then Inl NO_CONTENT else Inr (tier_text chosen))"
  by (simp add: extract_article_def py_or_def Let_def)

text \<open>
  C2, as the claim states it, fails: with an empty \<open>article\<close> element and a paragraph
  with text, the first tier has an element but no text, the paragraphs have text, and
  the extraction reports that there is no content instead of using the paragraphs.
\<close>

theorem empty_article_blocks_paragraphs:
  "tier_text (find_all is_article (remove_irrelevant
      [Tag (py ''article'') None [],
       Tag (py ''p'') None [NavigableString [0x4E2D, 0x6587]]])) = [] \<and>
   tier_text (find_all is_p (remove_irrelevant
      [Tag (py ''article'') None [],
       Tag (py ''p'') None [NavigableString [0x4E2D, 0x6587]]])) = [0x4E2D, 0x6587] \<and>
   extract_article
      [Tag (py ''article'') None [],
       Tag (py ''p'') None [NavigableString [0x4E2D, 0x6587]]] = Inl NO_CONTENT"
  by (simp add: extract_article_def remove_irrelevant_def find_all_def tier_text_def py_or_def
      strip_def py_isspace_def py_def)

text \<open>
  C2, amended. After the irrelevant elements are removed, the tiers (\<open>article\<close>
  elements; \<open>div\<close> elements with a class containing \<open>content\<close> or \<open>article\<close>; \<open>p\<close>
  elements) are tried in order and the first one that matches at least one element is
  chosen. The text of that tier alone decides the result: if it is empty the
  extraction reports that there is no content and no later tier is tried.
\<close>

theorem extractor_first_tier_with_elements:
  assumes "soup = remove_irrelevant parsed"
  shows "(find_all is_article soup \<noteq> [] \<longrightarrow>
      extract_article parsed =
        (if tier_text (find_all is_article soup) = [] then Inl NO_CONTENT
         else Inr (tier_text (find_all is_article soup)))) \<and>
    (find_all is_article soup = [] \<and> find_all is_content_div soup \<noteq> [] \<longrightarrow>
      extract_article parsed =
        (if tier_text (find_all is_content_div soup) = [] then Inl NO_CONTENT
         else Inr (tier_text (find_all is_content_div soup)))) \<and>
    (find_all is_article soup = [] \<and> find_all is_content_div soup = [] \<longrightarrow>
      extract_article parsed =
        (if tier_text (find_all is_p soup) = [] then Inl NO_CONTENT
         else Inr (tier_text (find_all is_p soup))))"
  unfolding assms extract_article_chosen [of parsed] by (simp add: Let_def)

theorem extractor_first_tier_with_elements_witness:
  "find_all is_article (remove_irrelevant
      [Tag (py ''div'') (Some [py ''Main-Content''])
         [Tag (py ''p'') None [NavigableString [0x7532, 0x4E59]]],
       Tag (py ''article'') None [NavigableString [0x20, 0x4E2D, 0x6587, 0x0A]],
       Tag (py ''nav'') None [Tag (py ''article'') None [NavigableString [0x4E19]]]]) \<noteq> [] \<and>
   extract_article
      [Tag (py ''div'') (Some [py ''Main-Content''])
         [Tag (py ''p'') None [NavigableString [0x7532, 0x4E59]]],
       Tag (py ''article'') None [NavigableString [0x20, 0x4E2D, 0x6587, 0x0A]],
       Tag (py ''nav'') None [Tag (py ''article'') None [NavigableString [0x4E19]]]]
     = Inr [0x4E2D, 0x6587]"
  using extractor_first_tier_with_elements [OF refl, of
      "[Tag (py ''div'') (Some [py ''Main-Content''])
         [Tag (py ''p'') None [NavigableString [0x7532, 0x4E59]]],
       Tag (py ''article'') None [NavigableString [0x20, 0x4E2D, 0x6587, 0x0A]],
       Tag (py ''nav'') None [Tag (py ''article'') None [NavigableString [0x4E19]]]]"]
  by (simp add: remove_irrelevant_def find_all_def tier_text_def
      strip_def py_isspace_def py_def)

lemma extract_div_example:
  "extract_article
      [Tag (py ''div'') (Some [py ''main'', py ''Post-Content''])
         [NavigableString [0x20, 0x7532], Tag (py ''p'') None [NavigableString [0x4E59]],
          Tag (py ''script'') None [NavigableString (py ''x'')]],
       Tag (py ''p'') None [NavigableString [0x4E2D, 0x6587]]]
     = Inr [0x7532, 0x4E59]"
  by (simp add: extract_article_def remove_irrelevant_def find_all_def tier_text_def py_or_def
      strip_def py_isspace_def py_def class_matches_def lower_def)

lemma NO_CONTENT_nonempty: "NO_CONTENT \<noteq> []"
  by (simp add: NO_CONTENT_def)

text \<open>
  C9. When the text of all three tiers is empty the extraction returns the message of
  line 61, which is not empty; and neither the extraction nor \<open>crawl_url_article\<close> ever
  returns the empty string as a successful result.
\<close>

theorem extractor_no_content_error:
  "(tier_text (find_all is_article (remove_irrelevant parsed)) = [] \<and>
    tier_text (find_all is_content_div (remove_irrelevant parsed)) = [] \<and>
    tier_text (find_all is_p (remove_irrelevant parsed)) = []
      \<longrightarrow> extract_article parsed = Inl NO_CONTENT) \<and>
   NO_CONTENT \<noteq> [] \<and>
   extract_article parsed \<noteq> Inr [] \<and>
   crawl_url_article fetch url \<noteq> Inr []"
proof -
  have a: "extract_article parsed' \<noteq> Inr []" for parsed'
    by (simp add: extract_article_chosen Let_def)
  have b: "crawl_url_article fetch url \<noteq> Inr []"
    using a by (simp add: crawl_url_article_def split: response.split)
  have c: "tier_text (find_all is_article (remove_irrelevant parsed)) = [] \<and>
    tier_text (find_all is_content_div (remove_irrelevant parsed)) = [] \<and>
    tier_text (find_all is_p (remove_irrelevant parsed)) = []
      \<longrightarrow> extract_article parsed = Inl NO_CONTENT"
    by (simp add: extract_article_chosen Let_def)
  from a b c NO_CONTENT_nonempty show ?thesis by blast
qed

theorem extractor_no_content_error_witness:
  "extract_article
      [Tag (py ''body'') None
         [Tag (py ''script'') None [NavigableString (py ''var x'')],
          Tag (py ''style'') None [NavigableString (py ''p {}'')]]] = Inl NO_CONTENT \<and>
   crawl_url_article (\<lambda>u. Page
      [Tag (py ''body'') None
         [Tag (py ''script'') None [NavigableString (py ''var x'')],
          Tag (py ''style'') None [NavigableString (py ''p {}'')]]]) [] = Inl NO_CONTENT"
  using extractor_no_content_error [of
      "[Tag (py ''body'') None
         [Tag (py ''script'') None [NavigableString (py ''var x'')],
          Tag (py ''style'') None [NavigableString (py ''p {}'')]]]"
      "\<lambda>u. Page
        [Tag (py ''body'') None
           [Tag (py ''script'') None [NavigableString (py ''var x'')],
            Tag (py ''style'') None [NavigableString (py ''p {}'')]]]" "[]"]
  by (simp add: crawl_url_article_def remove_irrelevant_def find_all_def tier_text_def py_def)

end
